theory Spec2Isabelle
  imports Main "HOL-Library.Word"
begin

section \<open>Data model\<close>

text \<open>
  The embedding follows \<^verbatim>\<open>controllers/nodeinfo_controller.go\<close> (the reconciler of
  the NodeInfo kind) and \<^verbatim>\<open>main.go\<close> (the vSphere login). Calls that leave the
  process (the Kubernetes client, the vSphere view manager and property collector, the
  URL parser and the login) are parameters of the model: what each call answers is held
  in an environment, and every call made is written to a trace. Log lines are not
  modelled; they do not influence control flow.
\<close>

subsection \<open>Errors and results\<close>

text \<open>
  A Go \<^verbatim>\<open>error\<close> value. An API status error carries the reason the API server
  gave; \<^verbatim>\<open>k8serr.IsNotFound\<close> tests that reason against \<^verbatim>\<open>"NotFound"\<close>, and
  \<^verbatim>\<open>client.IgnoreNotFound\<close> turns exactly those errors into \<^verbatim>\<open>nil\<close>.
\<close>

datatype go_error = StatusError string string | PlainError string

fun IsNotFound :: "go_error \<Rightarrow> bool" where
  "IsNotFound (StatusError reason msg) = (reason = ''NotFound'')"
| "IsNotFound (PlainError msg) = False"

definition IgnoreNotFound :: "go_error \<Rightarrow> go_error option" where
  "IgnoreNotFound err = (if IsNotFound err then None else Some err)"

text \<open>\<^verbatim>\<open>ctrl.Result\<close>; a \<^verbatim>\<open>time.Duration\<close> counts nanoseconds.\<close>

record ctrl_Result =
  Requeue :: bool
  RequeueAfter :: int

definition Minute :: int where
  "Minute = 60 * 1000000000"

definition empty_Result :: ctrl_Result where
  "empty_Result = \<lparr>Requeue = False, RequeueAfter = 0\<rparr>"

subsection \<open>The declared resource\<close>

text \<open>
  The status fields are those the reconciler assigns; the integer widths are those of
  the assignments (\<^verbatim>\<open>int64(...)\<close> of an \<^verbatim>\<open>int32\<close> property; the VLAN id is assigned
  without conversion from an \<^verbatim>\<open>int32\<close>).
\<close>

record NodeInfoStatus =
  VMGuestId :: string
  VMTotalCPU :: "64 word"
  VMResvdCPU :: "64 word"
  VMTotalMem :: "64 word"
  VMResvdMem :: "64 word"
  VMPowerState :: string
  VMHwVersion :: string
  VMIpAddress :: string
  PathToVM :: string
  SwitchType :: string
  NetName :: string
  NetOverallStatus :: string
  VlanId :: "32 word"

record NodeInfo =
  ObjName :: string
  Namespace :: string
  Nodename :: string
  Status :: NodeInfoStatus

subsection \<open>Inventory objects\<close>

record ManagedObjectReference =
  ref_Type :: string
  ref_Value :: string

record VirtualMachineConfigSummary =
  cfg_Name :: string
  NumCpu :: "32 word"
  CpuReservation :: "32 word"
  MemorySizeMB :: "32 word"
  MemoryReservation :: "32 word"
  VmPathName :: string

record VirtualMachineGuestSummary =
  GuestId :: string
  HwVersion :: string
  IpAddress :: string

text \<open>
  A retrieved VM, with the parts of \<^verbatim>\<open>vm.Summary\<close> the reconciler reads held
  directly: \<^verbatim>\<open>Summary.Config\<close>, \<^verbatim>\<open>Summary.Guest\<close> and
  \<^verbatim>\<open>Summary.Runtime.PowerState\<close>. \<^verbatim>\<open>Summary.Guest\<close> is a pointer in the vSphere
  bindings, so it can be \<^verbatim>\<open>nil\<close>; the other two are values.
\<close>

record VirtualMachine =
  Config :: VirtualMachineConfigSummary
  Guest :: "VirtualMachineGuestSummary option"
  PowerState :: string
  Network :: "ManagedObjectReference list"

record mo_Network =
  net_Name :: string
  net_OverallStatus :: string

text \<open>
  The two interface values the reconciler narrows with a type assertion. Each datatype
  lists the dynamic types the interface can hold, \<^verbatim>\<open>nil\<close> included.
\<close>

datatype BaseVmwareDistributedVirtualSwitchVlanSpec =
    NilVlanSpec
  | VmwareDistributedVirtualSwitchVlanIdSpec "32 word"
  | VmwareDistributedVirtualSwitchTrunkVlanSpec "(32 word \<times> 32 word) list"
  | VmwareDistributedVirtualSwitchPvlanSpec "32 word"

datatype BaseDVPortSetting =
    NilPortSetting
  | DVPortSetting
  | VMwareDVSPortSetting BaseVmwareDistributedVirtualSwitchVlanSpec

record mo_DistributedVirtualPortgroup =
  pg_Name :: string
  pg_OverallStatus :: string
  DefaultPortConfig :: BaseDVPortSetting

subsection \<open>Environment, trace and control flow\<close>

record env =
  client_Get :: "go_error + NodeInfo"
  CreateContainerView :: "go_error + unit"
  view_Retrieve :: "go_error + VirtualMachine list"
  pc_Retrieve_Network :: "ManagedObjectReference list \<Rightarrow> go_error + mo_Network"
  pc_Retrieve_Portgroup ::
    "ManagedObjectReference list \<Rightarrow> go_error + mo_DistributedVirtualPortgroup"
  status_Update :: "NodeInfo \<Rightarrow> go_error option"

datatype event =
    CallGet
  | CallCreateContainerView
  | CallViewRetrieve
  | CallPcRetrieve "ManagedObjectReference list"
  | CallStatusUpdate NodeInfo
  | CallViewDestroy

text \<open>
  How a call of \<^verbatim>\<open>Reconcile\<close> ends: it returns its pair, or a run-time panic
  (a failed type assertion, a \<^verbatim>\<open>nil\<close> dereference) unwinds it. Inside the loops a
  step either goes on with the status it has built or stops the whole call.
\<close>

datatype outcome = Returned ctrl_Result "go_error option" | Panicked

datatype flow = Next NodeInfoStatus | Stop outcome

definition then_flow ::
  "flow \<times> event list \<Rightarrow> (NodeInfoStatus \<Rightarrow> flow \<times> event list) \<Rightarrow> flow \<times> event list" where
  "then_flow m f =
     (case m of
        (Next st, tr) \<Rightarrow> (case f st of (fl, tr') \<Rightarrow> (fl, tr @ tr'))
      | (Stop out, tr) \<Rightarrow> (Stop out, tr))"

section \<open>The reconciler\<close>

text \<open>Lines 123 to 131: the nine fields copied from the summary of the matching VM.\<close>

definition store_vm_information ::
  "VirtualMachine \<Rightarrow> VirtualMachineGuestSummary \<Rightarrow> NodeInfoStatus \<Rightarrow> NodeInfoStatus" where
  "store_vm_information vm g st =
     st\<lparr>VMGuestId := GuestId g,
        VMTotalCPU := scast (NumCpu (Config vm)),
        VMResvdCPU := scast (CpuReservation (Config vm)),
        VMTotalMem := scast (MemorySizeMB (Config vm)),
        VMResvdMem := scast (MemoryReservation (Config vm)),
        VMPowerState := PowerState vm,
        VMHwVersion := HwVersion g,
        VMIpAddress := IpAddress g,
        PathToVM := VmPathName (Config vm)\<rparr>"

text \<open>
  Lines 135 to 175: one network reference. Both branches hand the whole reference list
  of the VM to the property collector. A reference of any other kind falls through
  both conditions. The two type assertions are of the single-value form, which panics
  when the dynamic type differs.
\<close>

definition network_ref_step ::
  "env \<Rightarrow> ManagedObjectReference list \<Rightarrow> ManagedObjectReference \<Rightarrow> NodeInfoStatus
     \<Rightarrow> flow \<times> event list" where
  "network_ref_step e nets ref st =
     (if ref_Type ref = ''Network'' then
        (let st1 = st\<lparr>SwitchType := ''Standard''\<rparr> in
         case pc_Retrieve_Network e nets of
           Inl err \<Rightarrow> (Stop (Returned empty_Result (Some err)), [CallPcRetrieve nets])
         | Inr n \<Rightarrow>
             (Next (st1\<lparr>NetName := net_Name n, NetOverallStatus := net_OverallStatus n\<rparr>),
              [CallPcRetrieve nets]))
      else if ref_Type ref = ''DistributedVirtualPortgroup'' then
        (let st1 = st\<lparr>SwitchType := ''Distributed''\<rparr> in
         case pc_Retrieve_Portgroup e nets of
           Inl err \<Rightarrow> (Stop (Returned empty_Result (Some err)), [CallPcRetrieve nets])
         | Inr pg \<Rightarrow>
             (let st2 = st1\<lparr>NetName := pg_Name pg, NetOverallStatus := pg_OverallStatus pg\<rparr> in
              case DefaultPortConfig pg of
                VMwareDVSPortSetting vlan \<Rightarrow>
                  (case vlan of
                     VmwareDistributedVirtualSwitchVlanIdSpec v \<Rightarrow>
                       (Next (st2\<lparr>VlanId := v\<rparr>), [CallPcRetrieve nets])
                   | _ \<Rightarrow> (Stop Panicked, [CallPcRetrieve nets]))
              | _ \<Rightarrow> (Stop Panicked, [CallPcRetrieve nets])))
      else (Next st, []))"

text \<open>Line 134: the loop over the references of one VM.\<close>

fun network_loop ::
  "env \<Rightarrow> ManagedObjectReference list \<Rightarrow> ManagedObjectReference list \<Rightarrow> NodeInfoStatus
     \<Rightarrow> flow \<times> event list" where
  "network_loop e nets [] st = (Next st, [])"
| "network_loop e nets (ref # refs) st =
     then_flow (network_ref_step e nets ref st) (network_loop e nets refs)"

text \<open>
  Lines 120 to 178: one VM. The first assignment reads through the guest pointer, so a
  VM without a guest summary panics before any field is written.
\<close>

definition vm_step :: "env \<Rightarrow> string \<Rightarrow> VirtualMachine \<Rightarrow> NodeInfoStatus \<Rightarrow> flow \<times> event list" where
  "vm_step e name vm st =
     (if cfg_Name (Config vm) = name then
        (case Guest vm of
           None \<Rightarrow> (Stop Panicked, [])
         | Some g \<Rightarrow> network_loop e (Network vm) (Network vm) (store_vm_information vm g st))
      else (Next st, []))"

text \<open>Line 118: the loop over all retrieved VMs; it has no early exit.\<close>

fun vm_loop :: "env \<Rightarrow> string \<Rightarrow> VirtualMachine list \<Rightarrow> NodeInfoStatus \<Rightarrow> flow \<times> event list" where
  "vm_loop e name [] st = (Next st, [])"
| "vm_loop e name (vm # vms) st = then_flow (vm_step e name vm st) (vm_loop e name vms)"

text \<open>
  Lines 101 to 191: what runs between the creation of the view and its deferred
  release.
\<close>

definition with_view :: "env \<Rightarrow> NodeInfo \<Rightarrow> outcome \<times> event list" where
  "with_view e node =
     (case view_Retrieve e of
        Inl err \<Rightarrow> (Returned empty_Result (Some err), [CallViewRetrieve])
      | Inr vms \<Rightarrow>
          (case vm_loop e (Nodename node) vms (Status node) of
             (Stop out, tr) \<Rightarrow> (out, CallViewRetrieve # tr)
           | (Next st, tr) \<Rightarrow>
               (let node' = node\<lparr>Status := st\<rparr> in
                case status_Update e node' of
                  Some err \<Rightarrow>
                    (Returned empty_Result (Some err),
                     CallViewRetrieve # tr @ [CallStatusUpdate node'])
                | None \<Rightarrow>
                    (Returned \<lparr>Requeue = False, RequeueAfter = 1 * Minute\<rparr> None,
                     CallViewRetrieve # tr @ [CallStatusUpdate node']))))"

text \<open>
  \<^verbatim>\<open>Reconcile\<close>. The deferred \<^verbatim>\<open>Destroy\<close> runs when the function leaves, by a
  return or by a panic, once the view exists; its own result is dropped.
\<close>

definition Reconcile :: "env \<Rightarrow> outcome \<times> event list" where
  "Reconcile e =
     (case client_Get e of
        Inl err \<Rightarrow> (Returned empty_Result (IgnoreNotFound err), [CallGet])
      | Inr node \<Rightarrow>
          (case CreateContainerView e of
             Inl err \<Rightarrow> (Returned empty_Result (Some err), [CallGet, CallCreateContainerView])
           | Inr view \<Rightarrow>
               (case with_view e node of
                  (out, tr) \<Rightarrow> (out, [CallGet, CallCreateContainerView] @ tr @ [CallViewDestroy]))))"

section \<open>The vSphere login\<close>

text \<open>
  \<^verbatim>\<open>vlogin\<close> of \<^verbatim>\<open>main.go\<close>. \<^verbatim>\<open>soap.ParseURL\<close> answers a URL pointer and an
  error, each of which may be \<^verbatim>\<open>nil\<close> on its own (the empty string gives both
  \<^verbatim>\<open>nil\<close>). \<^verbatim>\<open>os.Exit\<close> ends the process, so nothing after it runs. The
  \<^verbatim>\<open>insecure\<close> flag is registered with default \<^verbatim>\<open>true\<close> and never parsed
  afterwards.
\<close>

record url =
  url_Raw :: string
  url_User :: "(string \<times> string) option"

record ('c1, 'c2) login_env =
  ParseURL :: "string \<Rightarrow> url option \<times> go_error option"
  session_Login :: "url \<Rightarrow> go_error + 'c1"
  NewClient :: "url \<Rightarrow> bool \<Rightarrow> go_error + 'c2"

datatype login_event = CallParseURL string | CallLogin url | CallNewClient url bool

datatype ('c1, 'c2) vlogin_outcome = Exit int | VloginReturned 'c1 'c2 "go_error option"

definition vlogin ::
  "('c1, 'c2) login_env \<Rightarrow> string \<Rightarrow> string \<Rightarrow> string
     \<Rightarrow> ('c1, 'c2) vlogin_outcome \<times> login_event list" where
  "vlogin le vc user pwd =
     (let insecure = True in
      case ParseURL le vc of
        (None, err) \<Rightarrow> (Exit 1, [CallParseURL vc])
      | (Some u0, Some err) \<Rightarrow> (Exit 1, [CallParseURL vc])
      | (Some u0, None) \<Rightarrow>
          (let u = u0\<lparr>url_User := Some (user, pwd)\<rparr> in
           case session_Login le u of
             Inl err \<Rightarrow> (Exit 1, [CallParseURL vc, CallLogin u])
           | Inr c1 \<Rightarrow>
               (case NewClient le u insecure of
                  Inl err \<Rightarrow> (Exit 1, [CallParseURL vc, CallLogin u, CallNewClient u insecure])
                | Inr c2 \<Rightarrow>
                    (VloginReturned c1 c2 None,
                     [CallParseURL vc, CallLogin u, CallNewClient u insecure]))))"

text \<open>
  Session establishment fails when the endpoint does not parse, the login is refused
  or the second client cannot be created.
\<close>

definition establish_fails :: "('c1, 'c2) login_env \<Rightarrow> string \<Rightarrow> string \<Rightarrow> string \<Rightarrow> bool" where
  "establish_fails le vc user pwd =
     (case ParseURL le vc of
        (None, err) \<Rightarrow> True
      | (Some u0, Some err) \<Rightarrow> True
      | (Some u0, None) \<Rightarrow>
          (let u = u0\<lparr>url_User := Some (user, pwd)\<rparr> in
           isl (session_Login le u) \<or> isl (NewClient le u True)))"

section \<open>Parts of a status record\<close>

text \<open>The nine fields written from the VM summary, and the four written from its network.\<close>

definition direct_part ::
  "NodeInfoStatus \<Rightarrow>
     string \<times> 64 word \<times> 64 word \<times> 64 word \<times> 64 word \<times> string \<times> string \<times> string \<times> string" where
  "direct_part st =
     (VMGuestId st, VMTotalCPU st, VMResvdCPU st, VMTotalMem st, VMResvdMem st,
      VMPowerState st, VMHwVersion st, VMIpAddress st, PathToVM st)"

definition summary_values ::
  "VirtualMachine \<Rightarrow> VirtualMachineGuestSummary \<Rightarrow>
     string \<times> 64 word \<times> 64 word \<times> 64 word \<times> 64 word \<times> string \<times> string \<times> string \<times> string" where
  "summary_values vm g =
     (GuestId g, scast (NumCpu (Config vm)), scast (CpuReservation (Config vm)),
      scast (MemorySizeMB (Config vm)), scast (MemoryReservation (Config vm)),
      PowerState vm, HwVersion g, IpAddress g, VmPathName (Config vm))"

text \<open>The VMs of a retrieval whose name is the declared target name, in retrieval order.\<close>

definition matches :: "string \<Rightarrow> VirtualMachine list \<Rightarrow> VirtualMachine list" where
  "matches name vms = filter (\<lambda>vm. cfg_Name (Config vm) = name) vms"

text \<open>
  Two runs of the same steps from two start records \<open>s\<close> and \<open>t\<close>, ending in
  \<open>s1\<close> and \<open>t1\<close>: a field either ends with the same value in both, or was left
  alone in both.
\<close>

definition fld_rel :: "('s \<Rightarrow> 'a) \<Rightarrow> 's \<Rightarrow> 's \<Rightarrow> 's \<Rightarrow> 's \<Rightarrow> bool" where
  "fld_rel f s s1 t t1 = (f t1 = f s1 \<or> (f t1 = f t \<and> f s1 = f s))"

definition sim :: "NodeInfoStatus \<Rightarrow> NodeInfoStatus \<Rightarrow> NodeInfoStatus \<Rightarrow> NodeInfoStatus \<Rightarrow> bool" where
  "sim s s1 t t1 =
     (fld_rel VMGuestId s s1 t t1 \<and> fld_rel VMTotalCPU s s1 t t1 \<and>
      fld_rel VMResvdCPU s s1 t t1 \<and> fld_rel VMTotalMem s s1 t t1 \<and>
      fld_rel VMResvdMem s s1 t t1 \<and> fld_rel VMPowerState s s1 t t1 \<and>
      fld_rel VMHwVersion s s1 t t1 \<and> fld_rel VMIpAddress s s1 t t1 \<and>
      fld_rel PathToVM s s1 t t1 \<and> fld_rel SwitchType s s1 t t1 \<and>
      fld_rel NetName s s1 t t1 \<and> fld_rel NetOverallStatus s s1 t t1 \<and>
      fld_rel VlanId s s1 t t1)"

section \<open>Concrete inventories\<close>

definition empty_Status :: NodeInfoStatus where
  "empty_Status =
     \<lparr>VMGuestId = [], VMTotalCPU = 0, VMResvdCPU = 0, VMTotalMem = 0, VMResvdMem = 0,
      VMPowerState = [], VMHwVersion = [], VMIpAddress = [], PathToVM = [],
      SwitchType = [], NetName = [], NetOverallStatus = [], VlanId = 0\<rparr>"

definition node_a :: NodeInfo where
  "node_a = \<lparr>ObjName = ''nodeinfo-a'', Namespace = ''default'', Nodename = ''node-a'',
             Status = empty_Status\<rparr>"

definition guest_a :: VirtualMachineGuestSummary where
  "guest_a = \<lparr>GuestId = ''ubuntu64Guest'', HwVersion = ''vmx-15'', IpAddress = ''10.0.0.5''\<rparr>"

definition std_ref :: ManagedObjectReference where
  "std_ref = \<lparr>ref_Type = ''Network'', ref_Value = ''network-12''\<rparr>"

definition dvs_ref :: ManagedObjectReference where
  "dvs_ref = \<lparr>ref_Type = ''DistributedVirtualPortgroup'', ref_Value = ''dvportgroup-34''\<rparr>"

definition opaque_ref :: ManagedObjectReference where
  "opaque_ref = \<lparr>ref_Type = ''OpaqueNetwork'', ref_Value = ''network-o56''\<rparr>"

definition vm_a :: "ManagedObjectReference list \<Rightarrow> VirtualMachine" where
  "vm_a refs =
     \<lparr>Config = \<lparr>cfg_Name = ''node-a'', NumCpu = 4, CpuReservation = 0, MemorySizeMB = 8192,
                 MemoryReservation = 0, VmPathName = ''[ds1] node-a/node-a.vmx''\<rparr>,
      Guest = Some guest_a, PowerState = ''poweredOn'', Network = refs\<rparr>"

definition vm_a8 :: VirtualMachine where
  "vm_a8 =
     \<lparr>Config = \<lparr>cfg_Name = ''node-a'', NumCpu = 8, CpuReservation = 0, MemorySizeMB = 16384,
                 MemoryReservation = 0, VmPathName = ''[ds2] node-a/node-a.vmx''\<rparr>,
      Guest = Some guest_a, PowerState = ''poweredOff'', Network = []\<rparr>"

definition vm_net :: mo_Network where
  "vm_net = \<lparr>net_Name = ''VM Network'', net_OverallStatus = ''green''\<rparr>"

definition pg_with :: "BaseVmwareDistributedVirtualSwitchVlanSpec \<Rightarrow> mo_DistributedVirtualPortgroup" where
  "pg_with vlan = \<lparr>pg_Name = ''dv-pg'', pg_OverallStatus = ''green'',
                   DefaultPortConfig = VMwareDVSPortSetting vlan\<rparr>"

definition env_of ::
  "NodeInfo \<Rightarrow> VirtualMachine list \<Rightarrow> BaseVmwareDistributedVirtualSwitchVlanSpec
     \<Rightarrow> go_error option \<Rightarrow> env" where
  "env_of node vms vlan upd =
     \<lparr>client_Get = Inr node, CreateContainerView = Inr (), view_Retrieve = Inr vms,
      pc_Retrieve_Network = (\<lambda>refs. Inr vm_net),
      pc_Retrieve_Portgroup = (\<lambda>refs. Inr (pg_with vlan)),
      status_Update = (\<lambda>n. upd)\<rparr>"

definition status_std :: NodeInfoStatus where
  "status_std =
     \<lparr>VMGuestId = ''ubuntu64Guest'', VMTotalCPU = 4, VMResvdCPU = 0, VMTotalMem = 8192,
      VMResvdMem = 0, VMPowerState = ''poweredOn'', VMHwVersion = ''vmx-15'',
      VMIpAddress = ''10.0.0.5'', PathToVM = ''[ds1] node-a/node-a.vmx'',
      SwitchType = ''Standard'', NetName = ''VM Network'', NetOverallStatus = ''green'',
      VlanId = 0\<rparr>"

definition node_b :: NodeInfo where
  "node_b = \<lparr>ObjName = ''nodeinfo-b'', Namespace = ''default'', Nodename = ''node-b'',
             Status = status_std\<rparr>"

definition le_ok :: "(nat, nat) login_env" where
  "le_ok = \<lparr>ParseURL = (\<lambda>s. (Some \<lparr>url_Raw = s, url_User = None\<rparr>, None)),
            session_Login = (\<lambda>u. Inr 1), NewClient = (\<lambda>u insecure. Inr 2)\<rparr>"

definition le_refused :: "(nat, nat) login_env" where
  "le_refused = le_ok\<lparr>session_Login := (\<lambda>u. Inl (PlainError ''incorrect user name or password''))\<rparr>"

definition node_prev :: NodeInfo where
  "node_prev =
     node_a\<lparr>Status := status_std\<lparr>SwitchType := ''Distributed'', NetName := ''dv-pg'',
                                   VlanId := 1025\<rparr>\<rparr>"

definition status_two :: NodeInfoStatus where
  "status_two =
     \<lparr>VMGuestId = ''ubuntu64Guest'', VMTotalCPU = 8, VMResvdCPU = 0, VMTotalMem = 16384,
      VMResvdMem = 0, VMPowerState = ''poweredOff'', VMHwVersion = ''vmx-15'',
      VMIpAddress = ''10.0.0.5'', PathToVM = ''[ds2] node-a/node-a.vmx'',
      SwitchType = ''Standard'', NetName = ''VM Network'', NetOverallStatus = ''green'',
      VlanId = 0\<rparr>"

section \<open>Evaluation and traces\<close>

lemmas run_defs = Reconcile_def with_view_def vm_step_def network_ref_step_def then_flow_def
  store_vm_information_def IgnoreNotFound_def empty_Result_def Minute_def

lemmas input_defs = env_of_def node_a_def vm_a_def std_ref_def dvs_ref_def vm_net_def
  pg_with_def status_std_def empty_Status_def guest_a_def

lemma then_flow_Next:
  "then_flow m f = (Next st', tr) \<longleftrightarrow>
   (\<exists>st1 tr1 tr2. m = (Next st1, tr1) \<and> f st1 = (Next st', tr2) \<and> tr = tr1 @ tr2)"
  by (auto simp: then_flow_def split: prod.splits flow.splits)

lemma then_flow_trace:
  "set (snd m) \<subseteq> A \<Longrightarrow> (\<And>st. set (snd (f st)) \<subseteq> A) \<Longrightarrow> set (snd (then_flow m f)) \<subseteq> A"
  by (auto simp: then_flow_def split: prod.splits flow.splits) (metis snd_conv subsetD)

text \<open>The loops call nothing but the property collector.\<close>

lemma network_ref_step_trace: "set (snd (network_ref_step e nets ref st)) \<subseteq> range CallPcRetrieve"
  by (auto simp: network_ref_step_def Let_def
      split: sum.splits BaseDVPortSetting.splits BaseVmwareDistributedVirtualSwitchVlanSpec.splits)

lemma network_loop_trace: "set (snd (network_loop e nets refs st)) \<subseteq> range CallPcRetrieve"
proof (induction refs arbitrary: st)
  case Nil
  show ?case by simp
next
  case (Cons ref refs)
  show ?case
    unfolding network_loop.simps
    by (rule then_flow_trace [OF network_ref_step_trace Cons.IH])
qed

lemma vm_step_trace: "set (snd (vm_step e name vm st)) \<subseteq> range CallPcRetrieve"
  using network_loop_trace by (simp add: vm_step_def split: option.splits)

lemma vm_loop_trace: "set (snd (vm_loop e name vms st)) \<subseteq> range CallPcRetrieve"
proof (induction vms arbitrary: st)
  case Nil
  show ?case by simp
next
  case (Cons vm vms)
  show ?case
    unfolding vm_loop.simps
    by (rule then_flow_trace [OF vm_step_trace Cons.IH])
qed

lemma with_view_no_destroy: "CallViewDestroy \<notin> set (snd (with_view e node))"
proof (cases "view_Retrieve e")
  case (Inl err)
  then show ?thesis by (simp add: with_view_def)
next
  case (Inr vms)
  obtain fl tr where loop: "vm_loop e (Nodename node) vms (Status node) = (fl, tr)"
    by (cases "vm_loop e (Nodename node) vms (Status node)")
  have "CallViewDestroy \<notin> set tr"
    using vm_loop_trace [of e "Nodename node" vms "Status node"] loop by auto
  with Inr loop show ?thesis
    by (cases fl) (simp_all add: with_view_def Let_def split: option.splits)
qed

lemma vm_loop_no_match:
  "\<forall>vm \<in> set vms. cfg_Name (Config vm) \<noteq> name \<Longrightarrow> vm_loop e name vms st = (Next st, [])"
  by (induction vms) (simp_all add: vm_step_def then_flow_def)

section \<open>Fetching the declared resource\<close>

text \<open>
  C10: when the fetch of the declared resource fails, \<^verbatim>\<open>Reconcile\<close> makes no further
  call (no view, no retrieval, no status write) and asks for no requeue. A NotFound
  error is reported as success (\<^verbatim>\<open>nil\<close>); any other error is returned as it is.
\<close>

theorem Reconcile_get_error:
  "client_Get e = Inl err \<Longrightarrow>
   Reconcile e = (Returned \<lparr>Requeue = False, RequeueAfter = 0\<rparr>
                    (if IsNotFound err then None else Some err), [CallGet])"
  by (simp add: Reconcile_def IgnoreNotFound_def empty_Result_def)

theorem Reconcile_get_error_witness:
  "client_Get (env_of node_a [] NilVlanSpec None
                 \<lparr>client_Get := Inl (StatusError ''NotFound'' ''gone'')\<rparr>)
     = Inl (StatusError ''NotFound'' ''gone'') \<and>
   Reconcile (env_of node_a [] NilVlanSpec None
                \<lparr>client_Get := Inl (StatusError ''NotFound'' ''gone'')\<rparr>)
     = (Returned \<lparr>Requeue = False, RequeueAfter = 0\<rparr> None, [CallGet]) \<and>
   client_Get (env_of node_a [] NilVlanSpec None\<lparr>client_Get := Inl (PlainError ''timeout'')\<rparr>)
     = Inl (PlainError ''timeout'') \<and>
   Reconcile (env_of node_a [] NilVlanSpec None\<lparr>client_Get := Inl (PlainError ''timeout'')\<rparr>)
     = (Returned \<lparr>Requeue = False, RequeueAfter = 0\<rparr> (Some (PlainError ''timeout'')), [CallGet])"
  using
    Reconcile_get_error
      [of "env_of node_a [] NilVlanSpec None\<lparr>client_Get := Inl (StatusError ''NotFound'' ''gone'')\<rparr>"
          "StatusError ''NotFound'' ''gone''"]
    Reconcile_get_error
      [of "env_of node_a [] NilVlanSpec None\<lparr>client_Get := Inl (PlainError ''timeout'')\<rparr>"
          "PlainError ''timeout''"]
  by (simp add: env_of_def)

section \<open>Retrieval and the scoped view\<close>

text \<open>
  C6: when the bulk retrieval through the view fails, \<^verbatim>\<open>Reconcile\<close> returns that
  error with an empty result; the trace shows the view released and no status write,
  so the stored status stays as it was. The retrieval answers an error or the whole
  list, never a part of it.
\<close>

theorem Reconcile_retrieve_error:
  "client_Get e = Inr node \<Longrightarrow> CreateContainerView e = Inr view \<Longrightarrow>
   view_Retrieve e = Inl err \<Longrightarrow>
   Reconcile e = (Returned \<lparr>Requeue = False, RequeueAfter = 0\<rparr> (Some err),
                  [CallGet, CallCreateContainerView, CallViewRetrieve, CallViewDestroy])"
  by (simp add: Reconcile_def with_view_def empty_Result_def)

theorem Reconcile_retrieve_error_witness:
  "client_Get (env_of node_a [] NilVlanSpec None
                 \<lparr>view_Retrieve := Inl (PlainError ''session expired'')\<rparr>) = Inr node_a \<and>
   CreateContainerView (env_of node_a [] NilVlanSpec None
                 \<lparr>view_Retrieve := Inl (PlainError ''session expired'')\<rparr>) = Inr () \<and>
   view_Retrieve (env_of node_a [] NilVlanSpec None
                 \<lparr>view_Retrieve := Inl (PlainError ''session expired'')\<rparr>)
     = Inl (PlainError ''session expired'') \<and>
   Reconcile (env_of node_a [] NilVlanSpec None
                 \<lparr>view_Retrieve := Inl (PlainError ''session expired'')\<rparr>)
     = (Returned \<lparr>Requeue = False, RequeueAfter = 0\<rparr> (Some (PlainError ''session expired'')),
        [CallGet, CallCreateContainerView, CallViewRetrieve, CallViewDestroy])"
  using Reconcile_retrieve_error
    [of "env_of node_a [] NilVlanSpec None\<lparr>view_Retrieve := Inl (PlainError ''session expired'')\<rparr>"
        node_a "()" "PlainError ''session expired''"]
  by (simp add: env_of_def)

text \<open>
  C7: once the view has been created, the trace of \<^verbatim>\<open>Reconcile\<close> ends with the
  release of the view, whatever happened in between (a return with or without an
  error, or a panic), and the view is released exactly once.
\<close>

theorem Reconcile_destroys_view:
  "client_Get e = Inr node \<Longrightarrow> CreateContainerView e = Inr view \<Longrightarrow>
   snd (Reconcile e)
     = [CallGet, CallCreateContainerView] @ snd (with_view e node) @ [CallViewDestroy]
   \<and> CallViewDestroy \<notin> set (snd (with_view e node))"
  using with_view_no_destroy [of e node]
  by (simp add: Reconcile_def split: prod.splits)

theorem Reconcile_destroys_view_witness:
  "client_Get (env_of node_a [vm_a [dvs_ref]] (VmwareDistributedVirtualSwitchPvlanSpec 7) None)
     = Inr node_a \<and>
   CreateContainerView
     (env_of node_a [vm_a [dvs_ref]] (VmwareDistributedVirtualSwitchPvlanSpec 7) None) = Inr () \<and>
   Reconcile (env_of node_a [vm_a [dvs_ref]] (VmwareDistributedVirtualSwitchPvlanSpec 7) None)
     = (Panicked, [CallGet, CallCreateContainerView, CallViewRetrieve, CallPcRetrieve [dvs_ref],
                   CallViewDestroy])"
  using Reconcile_destroys_view
    [of "env_of node_a [vm_a [dvs_ref]] (VmwareDistributedVirtualSwitchPvlanSpec 7) None"
        node_a "()"]
  by (simp add: run_defs input_defs)

section \<open>Network references\<close>

text \<open>
  C1: a matching VM on a distributed port group whose default port configuration holds
  a trunk VLAN specification. The narrowing of the VLAN specification to the
  single-id type panics: \<^verbatim>\<open>Reconcile\<close> returns no error value and writes no status;
  only the deferred release of the view still runs.
\<close>

theorem Reconcile_trunk_vlan_panics:
  "Reconcile (env_of node_a [vm_a [dvs_ref]]
                (VmwareDistributedVirtualSwitchTrunkVlanSpec [(100, 200)]) None)
   = (Panicked, [CallGet, CallCreateContainerView, CallViewRetrieve, CallPcRetrieve [dvs_ref],
                 CallViewDestroy])"
  by (simp add: run_defs input_defs)

text \<open>
  C2 (amended): a network reference whose kind is neither \<^verbatim>\<open>"Network"\<close> nor
  \<^verbatim>\<open>"DistributedVirtualPortgroup"\<close> is skipped: the step raises no error, calls
  nothing and leaves the status as it was.
\<close>

theorem network_ref_step_unknown_kind:
  "ref_Type ref \<noteq> ''Network'' \<Longrightarrow> ref_Type ref \<noteq> ''DistributedVirtualPortgroup'' \<Longrightarrow>
   network_ref_step e nets ref st = (Next st, [])"
  by (simp add: network_ref_step_def)

theorem network_ref_step_unknown_kind_witness:
  "ref_Type opaque_ref \<noteq> ''Network'' \<and> ref_Type opaque_ref \<noteq> ''DistributedVirtualPortgroup'' \<and>
   network_ref_step (env_of node_a [] NilVlanSpec None) [opaque_ref] opaque_ref status_std
     = (Next status_std, [])"
  using network_ref_step_unknown_kind
    [of opaque_ref "env_of node_a [] NilVlanSpec None" "[opaque_ref]" status_std]
  by (simp add: opaque_ref_def)

text \<open>
  C2 as stated fails: with a matching VM whose only network reference is of kind
  \<^verbatim>\<open>"OpaqueNetwork"\<close>, the reconciliation reports success, and commits a status
  whose network fields still hold what was fetched (here the empty strings).
\<close>

theorem Reconcile_unknown_kind_counterexample:
  "Reconcile (env_of node_a [vm_a [opaque_ref]] NilVlanSpec None)
   = (Returned \<lparr>Requeue = False, RequeueAfter = 60000000000\<rparr> None,
      [CallGet, CallCreateContainerView, CallViewRetrieve,
       CallStatusUpdate
         (node_a\<lparr>Status := status_std\<lparr>SwitchType := [], NetName := [], NetOverallStatus := []\<rparr>\<rparr>),
       CallViewDestroy])"
  by (simp add: run_defs input_defs opaque_ref_def)

section \<open>No matching object\<close>

text \<open>
  C5 (amended): when no retrieved VM carries the declared target name, the status is
  not changed, and the reconciler still issues the status write, with the resource
  exactly as fetched. When that write succeeds the cycle reports success and asks for
  the next run after one minute; when it fails, the write's error is returned.
\<close>

theorem Reconcile_no_match:
  "client_Get e = Inr node \<Longrightarrow> CreateContainerView e = Inr view \<Longrightarrow>
   view_Retrieve e = Inr vms \<Longrightarrow>
   \<forall>vm \<in> set vms. cfg_Name (Config vm) \<noteq> Nodename node \<Longrightarrow>
   Reconcile e =
     ((case status_Update e node of
         None \<Rightarrow> Returned \<lparr>Requeue = False, RequeueAfter = 60000000000\<rparr> None
       | Some err \<Rightarrow> Returned \<lparr>Requeue = False, RequeueAfter = 0\<rparr> (Some err)),
      [CallGet, CallCreateContainerView, CallViewRetrieve, CallStatusUpdate node,
       CallViewDestroy])"
  by (simp add: Reconcile_def with_view_def vm_loop_no_match empty_Result_def Minute_def
      split: option.splits)

theorem Reconcile_no_match_witness:
  "client_Get (env_of node_b [vm_a [std_ref]] NilVlanSpec None) = Inr node_b \<and>
   CreateContainerView (env_of node_b [vm_a [std_ref]] NilVlanSpec None) = Inr () \<and>
   view_Retrieve (env_of node_b [vm_a [std_ref]] NilVlanSpec None) = Inr [vm_a [std_ref]] \<and>
   cfg_Name (Config (vm_a [std_ref])) \<noteq> Nodename node_b \<and>
   Reconcile (env_of node_b [vm_a [std_ref]] NilVlanSpec None)
     = (Returned \<lparr>Requeue = False, RequeueAfter = 60000000000\<rparr> None,
        [CallGet, CallCreateContainerView, CallViewRetrieve, CallStatusUpdate node_b,
         CallViewDestroy])"
  using Reconcile_no_match
    [of "env_of node_b [vm_a [std_ref]] NilVlanSpec None" node_b "()" "[vm_a [std_ref]]"]
  by (simp add: env_of_def node_b_def vm_a_def)

text \<open>
  C5 as stated fails: no VM matches and the store refuses the status write; the cycle
  then reports the write's error and asks for no requeue, instead of reporting
  success.
\<close>

theorem Reconcile_no_match_counterexample:
  "Reconcile (env_of node_b [vm_a [std_ref]] NilVlanSpec (Some (PlainError ''conflict'')))
   = (Returned \<lparr>Requeue = False, RequeueAfter = 0\<rparr> (Some (PlainError ''conflict'')),
      [CallGet, CallCreateContainerView, CallViewRetrieve, CallStatusUpdate node_b,
       CallViewDestroy])"
  by (simp add: run_defs input_defs node_b_def)

section \<open>Session establishment\<close>

text \<open>
  C8: every failure of the session establishment (endpoint that does not parse, refused
  login, client that cannot be created) ends the process with exit code 1;
  \<^verbatim>\<open>vlogin\<close> returns only when nothing failed, and then its error value is
  \<^verbatim>\<open>nil\<close>. No call is made twice, so nothing is retried.
\<close>

theorem vlogin_fatal:
  "(establish_fails le vc user pwd \<longrightarrow>
      fst (vlogin le vc user pwd) = Exit 1 \<and> (1::int) \<noteq> 0) \<and>
   (\<forall>c1 c2 err. fst (vlogin le vc user pwd) = VloginReturned c1 c2 err \<longrightarrow>
      err = None \<and> \<not> establish_fails le vc user pwd) \<and>
   (\<forall>code. fst (vlogin le vc user pwd) = Exit code \<longrightarrow> establish_fails le vc user pwd) \<and>
   distinct (snd (vlogin le vc user pwd))"
  by (auto simp: vlogin_def establish_fails_def Let_def
      split: prod.splits option.splits sum.splits)

theorem vlogin_fatal_witness:
  "establish_fails le_refused ''https://vcenter/sdk'' ''admin'' ''secret'' \<and>
   vlogin le_refused ''https://vcenter/sdk'' ''admin'' ''secret''
     = (Exit 1,
        [CallParseURL ''https://vcenter/sdk'',
         CallLogin \<lparr>url_Raw = ''https://vcenter/sdk'', url_User = Some (''admin'', ''secret'')\<rparr>]) \<and>
   \<not> establish_fails le_ok ''https://vcenter/sdk'' ''admin'' ''secret'' \<and>
   fst (vlogin le_ok ''https://vcenter/sdk'' ''admin'' ''secret'') = VloginReturned 1 2 None"
  using vlogin_fatal [of le_refused "''https://vcenter/sdk''" "''admin''" "''secret''"]
    vlogin_fatal [of le_ok "''https://vcenter/sdk''" "''admin''" "''secret''"]
  by (simp add: vlogin_def establish_fails_def le_refused_def le_ok_def Let_def)

section \<open>Matching objects\<close>

text \<open>The network steps leave the nine summary fields alone.\<close>

lemma network_ref_step_direct:
  "network_ref_step e nets ref st = (Next st', tr) \<Longrightarrow> direct_part st' = direct_part st"
  by (auto simp: network_ref_step_def Let_def direct_part_def
      split: if_splits sum.splits BaseDVPortSetting.splits BaseVmwareDistributedVirtualSwitchVlanSpec.splits)

lemma network_loop_direct:
  "network_loop e nets refs st = (Next st', tr) \<Longrightarrow> direct_part st' = direct_part st"
proof (induction refs arbitrary: st tr)
  case Nil
  then show ?case by simp
next
  case (Cons ref refs)
  then show ?case
    by (auto simp: then_flow_Next dest: network_ref_step_direct)
qed

lemma direct_part_store: "direct_part (store_vm_information vm g st) = summary_values vm g"
  by (simp add: direct_part_def store_vm_information_def summary_values_def)

lemma vm_step_direct:
  assumes "vm_step e name vm st = (Next st', tr)"
  shows "if cfg_Name (Config vm) = name
         then \<exists>g. Guest vm = Some g \<and> direct_part st' = summary_values vm g
         else st' = st"
  using assms
  by (auto simp: vm_step_def direct_part_store split: if_splits option.splits
      dest!: network_loop_direct)

lemma vm_loop_direct:
  "vm_loop e name vms st = (Next st', tr) \<Longrightarrow>
   (if matches name vms = [] then direct_part st' = direct_part st
    else \<exists>g. Guest (last (matches name vms)) = Some g \<and>
             direct_part st' = summary_values (last (matches name vms)) g)"
proof (induction vms arbitrary: st tr)
  case Nil
  then show ?case by (simp add: matches_def)
next
  case (Cons vm vms)
  from Cons.prems obtain st1 tr1 tr2 where
    step: "vm_step e name vm st = (Next st1, tr1)" and
    rest: "vm_loop e name vms st1 = (Next st', tr2)"
    by (auto simp: then_flow_Next)
  note ih = Cons.IH [OF rest]
  note s = vm_step_direct [OF step]
  show ?case
  proof (cases "matches name vms = []")
    case True
    with ih s show ?thesis by (auto simp: matches_def split: if_splits)
  next
    case False
    with ih show ?thesis by (auto simp: matches_def)
  qed
qed

text \<open>A step of the loops stops the call with an error or a panic, never with success.\<close>

lemma then_flow_Stop:
  "then_flow m f = (Stop out, tr) \<longleftrightarrow>
   (m = (Stop out, tr) \<or>
    (\<exists>st1 tr1 tr2. m = (Next st1, tr1) \<and> f st1 = (Stop out, tr2) \<and> tr = tr1 @ tr2))"
  by (auto simp: then_flow_def split: prod.splits flow.splits)

lemma network_ref_step_Stop:
  "network_ref_step e nets ref st \<noteq> (Stop (Returned res None), tr)"
  by (auto simp: network_ref_step_def Let_def
      split: sum.splits BaseDVPortSetting.splits BaseVmwareDistributedVirtualSwitchVlanSpec.splits)

lemma network_loop_Stop:
  "network_loop e nets refs st \<noteq> (Stop (Returned res None), tr)"
  by (induction refs arbitrary: st tr) (auto simp: then_flow_Stop network_ref_step_Stop)

lemma vm_step_Stop: "vm_step e name vm st \<noteq> (Stop (Returned res None), tr)"
  by (auto simp: vm_step_def network_loop_Stop split: option.splits)

lemma vm_loop_Stop: "vm_loop e name vms st \<noteq> (Stop (Returned res None), tr)"
  by (induction vms arbitrary: st tr) (auto simp: then_flow_Stop vm_step_Stop)

text \<open>What a run that reports success has done.\<close>

lemma Reconcile_success:
  assumes "client_Get e = Inr node" "CreateContainerView e = Inr view" "view_Retrieve e = Inr vms"
    and "Reconcile e = (Returned res None, tr)"
  shows "\<exists>st tr1. vm_loop e (Nodename node) vms (Status node) = (Next st, tr1) \<and>
           status_Update e (node\<lparr>Status := st\<rparr>) = None \<and>
           res = \<lparr>Requeue = False, RequeueAfter = 60000000000\<rparr> \<and>
           tr = [CallGet, CallCreateContainerView, CallViewRetrieve] @ tr1 @
                [CallStatusUpdate (node\<lparr>Status := st\<rparr>), CallViewDestroy]"
proof -
  obtain fl tr1 where loop: "vm_loop e (Nodename node) vms (Status node) = (fl, tr1)"
    by (cases "vm_loop e (Nodename node) vms (Status node)")
  show ?thesis
  proof (cases fl)
    case (Next st)
    with assms loop show ?thesis
      by (auto simp: Reconcile_def with_view_def Let_def empty_Result_def Minute_def
          split: option.splits)
  next
    case (Stop out)
    with assms loop vm_loop_Stop [of e "Nodename node" vms "Status node" res tr1] show ?thesis
      by (auto simp: Reconcile_def with_view_def empty_Result_def)
  qed
qed

text \<open>
  C3 (amended): when several retrieved VMs carry the declared target name and the
  reconciliation succeeds, the nine fields copied from the VM summary are those of the
  LAST matching VM in retrieval order: the loop has no early exit, so every later
  match overwrites them.
\<close>

theorem Reconcile_last_match_wins:
  assumes "client_Get e = Inr node" "CreateContainerView e = Inr view" "view_Retrieve e = Inr vms"
    and "matches (Nodename node) vms \<noteq> []"
    and "Reconcile e = (Returned res None, tr)"
  shows "\<exists>st g. CallStatusUpdate (node\<lparr>Status := st\<rparr>) \<in> set tr \<and>
           Guest (last (matches (Nodename node) vms)) = Some g \<and>
           direct_part st = summary_values (last (matches (Nodename node) vms)) g"
proof -
  from Reconcile_success [OF assms(1,2,3,5)] obtain st tr1 where
    loop: "vm_loop e (Nodename node) vms (Status node) = (Next st, tr1)" and
    tr: "tr = [CallGet, CallCreateContainerView, CallViewRetrieve] @ tr1 @
                [CallStatusUpdate (node\<lparr>Status := st\<rparr>), CallViewDestroy]"
    by blast
  from vm_loop_direct [OF loop] assms(4) obtain g where
    "Guest (last (matches (Nodename node) vms)) = Some g"
    "direct_part st = summary_values (last (matches (Nodename node) vms)) g"
    by auto
  with tr show ?thesis by auto
qed

theorem Reconcile_last_match_wins_witness:
  "client_Get (env_of node_a [vm_a [std_ref], vm_a8] NilVlanSpec None) = Inr node_a \<and>
   CreateContainerView (env_of node_a [vm_a [std_ref], vm_a8] NilVlanSpec None) = Inr () \<and>
   view_Retrieve (env_of node_a [vm_a [std_ref], vm_a8] NilVlanSpec None)
     = Inr [vm_a [std_ref], vm_a8] \<and>
   matches (Nodename node_a) [vm_a [std_ref], vm_a8] = [vm_a [std_ref], vm_a8] \<and>
   Reconcile (env_of node_a [vm_a [std_ref], vm_a8] NilVlanSpec None)
     = (Returned \<lparr>Requeue = False, RequeueAfter = 60000000000\<rparr> None,
        [CallGet, CallCreateContainerView, CallViewRetrieve, CallPcRetrieve [std_ref],
         CallStatusUpdate (node_a\<lparr>Status := status_two\<rparr>), CallViewDestroy]) \<and>
   (\<exists>st g. CallStatusUpdate (node_a\<lparr>Status := st\<rparr>)
              \<in> set [CallGet, CallCreateContainerView, CallViewRetrieve,
                     CallPcRetrieve [std_ref],
                     CallStatusUpdate (node_a\<lparr>Status := status_two\<rparr>), CallViewDestroy] \<and>
           Guest (last (matches (Nodename node_a) [vm_a [std_ref], vm_a8])) = Some g \<and>
           direct_part st = summary_values (last (matches (Nodename node_a) [vm_a [std_ref], vm_a8])) g)"
proof -
  let ?e = "env_of node_a [vm_a [std_ref], vm_a8] NilVlanSpec None"
  have get: "client_Get ?e = Inr node_a" and view: "CreateContainerView ?e = Inr ()"
    and vms: "view_Retrieve ?e = Inr [vm_a [std_ref], vm_a8]"
    by (simp_all add: env_of_def)
  have m: "matches (Nodename node_a) [vm_a [std_ref], vm_a8] = [vm_a [std_ref], vm_a8]"
    by (simp add: matches_def node_a_def vm_a_def vm_a8_def)
  then have ne: "matches (Nodename node_a) [vm_a [std_ref], vm_a8] \<noteq> []"
    by simp
  have run: "Reconcile ?e
     = (Returned \<lparr>Requeue = False, RequeueAfter = 60000000000\<rparr> None,
        [CallGet, CallCreateContainerView, CallViewRetrieve, CallPcRetrieve [std_ref],
         CallStatusUpdate (node_a\<lparr>Status := status_two\<rparr>), CallViewDestroy])"
    by (simp add: run_defs input_defs vm_a8_def status_two_def)
  from Reconcile_last_match_wins [OF get view vms ne run] get view vms m run
  show ?thesis by blast
qed

text \<open>
  C3 as stated fails: with two VMs named \<^verbatim>\<open>node-a\<close>, the committed status takes
  CPU count, memory size, power state and path from the second one; the first one
  alone would have given another status.
\<close>

theorem Reconcile_first_match_counterexample:
  "Reconcile (env_of node_a [vm_a [std_ref], vm_a8] NilVlanSpec None)
     = (Returned \<lparr>Requeue = False, RequeueAfter = 60000000000\<rparr> None,
        [CallGet, CallCreateContainerView, CallViewRetrieve, CallPcRetrieve [std_ref],
         CallStatusUpdate (node_a\<lparr>Status := status_two\<rparr>), CallViewDestroy]) \<and>
   Reconcile (env_of node_a [vm_a [std_ref]] NilVlanSpec None)
     = (Returned \<lparr>Requeue = False, RequeueAfter = 60000000000\<rparr> None,
        [CallGet, CallCreateContainerView, CallViewRetrieve, CallPcRetrieve [std_ref],
         CallStatusUpdate (node_a\<lparr>Status := status_std\<rparr>), CallViewDestroy]) \<and>
   VMTotalCPU status_two = 8 \<and> VMTotalCPU status_std = 4"
  by (simp add: run_defs input_defs vm_a8_def status_two_def)

section \<open>Standard bindings and the VLAN field\<close>

text \<open>
  C4: the claim asks that a successful reconciliation with a match leaves no value of
  the previous status behind, and that a Standard binding ends with the VLAN field at
  zero. The reconciler assigns into the status of the resource it fetched, and only
  the Distributed branch assigns the VLAN field. Here the fetched resource carries
  VLAN id 1025 from an earlier cycle on a distributed port group, and the matching VM
  now sits on a Standard network: the cycle succeeds and commits switch type
  \<^verbatim>\<open>Standard\<close> together with VLAN id 1025. The same inventory with a resource
  fetched with VLAN id 0 commits 0, so the committed VLAN field is the earlier value,
  not one derived from the matched object.
\<close>

theorem Reconcile_standard_stale_vlan:
  "VlanId (Status node_prev) = 1025 \<and>
   Reconcile (env_of node_prev [vm_a [std_ref]] NilVlanSpec None)
     = (Returned \<lparr>Requeue = False, RequeueAfter = 60000000000\<rparr> None,
        [CallGet, CallCreateContainerView, CallViewRetrieve, CallPcRetrieve [std_ref],
         CallStatusUpdate (node_prev\<lparr>Status := status_std\<lparr>VlanId := 1025\<rparr>\<rparr>),
         CallViewDestroy]) \<and>
   SwitchType (status_std\<lparr>VlanId := 1025\<rparr>) = ''Standard'' \<and>
   VlanId (status_std\<lparr>VlanId := 1025\<rparr>) = 1025 \<and>
   VlanId (Status node_a) = 0 \<and>
   Reconcile (env_of node_a [vm_a [std_ref]] NilVlanSpec None)
     = (Returned \<lparr>Requeue = False, RequeueAfter = 60000000000\<rparr> None,
        [CallGet, CallCreateContainerView, CallViewRetrieve, CallPcRetrieve [std_ref],
         CallStatusUpdate (node_a\<lparr>Status := status_std\<rparr>), CallViewDestroy]) \<and>
   VlanId status_std = 0"
  by (simp add: run_defs input_defs node_prev_def)

section \<open>Two runs in succession\<close>

text \<open>
  Every step of the loops overwrites some fields with values that do not depend on the
  status it starts from, and leaves the others alone. Two runs of the same steps from
  two start records therefore end in records related field by field.
\<close>

lemma fld_rel_same: "fld_rel f s s t t"
  by (simp add: fld_rel_def)

lemma fld_rel_trans:
  "fld_rel f s s1 t t1 \<Longrightarrow> fld_rel f s1 s2 t1 t2 \<Longrightarrow> fld_rel f s s2 t t2"
  by (auto simp: fld_rel_def)

lemma fld_rel_fix: "fld_rel f s s1 s1 t1 \<longleftrightarrow> f t1 = f s1"
  by (auto simp: fld_rel_def)

lemma sim_same: "sim s s t t"
  by (simp add: sim_def fld_rel_same)

lemma sim_trans: "sim s s1 t t1 \<Longrightarrow> sim s1 s2 t1 t2 \<Longrightarrow> sim s s2 t t2"
  unfolding sim_def
  apply (elim conjE)
  apply (intro conjI)
  apply (erule (1) fld_rel_trans)+
  done

lemma sim_fix:
  assumes "sim s s1 s1 t1"
  shows "t1 = s1"
proof -
  from assms have
    "VMGuestId t1 = VMGuestId s1" "VMTotalCPU t1 = VMTotalCPU s1"
    "VMResvdCPU t1 = VMResvdCPU s1" "VMTotalMem t1 = VMTotalMem s1"
    "VMResvdMem t1 = VMResvdMem s1" "VMPowerState t1 = VMPowerState s1"
    "VMHwVersion t1 = VMHwVersion s1" "VMIpAddress t1 = VMIpAddress s1"
    "PathToVM t1 = PathToVM s1" "SwitchType t1 = SwitchType s1"
    "NetName t1 = NetName s1" "NetOverallStatus t1 = NetOverallStatus s1"
    "VlanId t1 = VlanId s1"
    by (simp_all add: sim_def fld_rel_fix)
  then show ?thesis by simp
qed

lemma network_ref_step_Next:
  assumes "network_ref_step e nets ref s = (Next s1, tr)"
  shows "(ref_Type ref = ''Network'' \<and>
          (\<exists>n. pc_Retrieve_Network e nets = Inr n \<and> tr = [CallPcRetrieve nets] \<and>
               s1 = s\<lparr>SwitchType := ''Standard'', NetName := net_Name n,
                       NetOverallStatus := net_OverallStatus n\<rparr>)) \<or>
         (ref_Type ref \<noteq> ''Network'' \<and> ref_Type ref = ''DistributedVirtualPortgroup'' \<and>
          (\<exists>pg v. pc_Retrieve_Portgroup e nets = Inr pg \<and> tr = [CallPcRetrieve nets] \<and>
               DefaultPortConfig pg
                 = VMwareDVSPortSetting (VmwareDistributedVirtualSwitchVlanIdSpec v) \<and>
               s1 = s\<lparr>SwitchType := ''Distributed'', NetName := pg_Name pg,
                       NetOverallStatus := pg_OverallStatus pg, VlanId := v\<rparr>)) \<or>
         (ref_Type ref \<noteq> ''Network'' \<and> ref_Type ref \<noteq> ''DistributedVirtualPortgroup'' \<and>
          tr = [] \<and> s1 = s)"
proof (cases "ref_Type ref = ''Network''")
  case True
  with assms show ?thesis
    by (auto simp: network_ref_step_def Let_def split: sum.splits)
next
  case False
  show ?thesis
  proof (cases "ref_Type ref = ''DistributedVirtualPortgroup''")
    case True
    with False assms show ?thesis
      by (auto simp: network_ref_step_def Let_def
          split: sum.splits BaseDVPortSetting.splits
            BaseVmwareDistributedVirtualSwitchVlanSpec.splits)
  next
    case other: False
    with False assms show ?thesis
      by (simp add: network_ref_step_def)
  qed
qed

lemma network_ref_step_sim:
  assumes "network_ref_step e nets ref s = (Next s1, tr)"
  shows "\<exists>t1. network_ref_step e nets ref t = (Next t1, tr) \<and> sim s s1 t t1"
  using network_ref_step_Next [OF assms]
proof (elim disjE conjE exE)
  fix n
  assume "ref_Type ref = ''Network''" "pc_Retrieve_Network e nets = Inr n"
    "tr = [CallPcRetrieve nets]"
    "s1 = s\<lparr>SwitchType := ''Standard'', NetName := net_Name n,
             NetOverallStatus := net_OverallStatus n\<rparr>"
  then have "network_ref_step e nets ref t
      = (Next (t\<lparr>SwitchType := ''Standard'', NetName := net_Name n,
                 NetOverallStatus := net_OverallStatus n\<rparr>), tr)"
    and "sim s s1 t (t\<lparr>SwitchType := ''Standard'', NetName := net_Name n,
                 NetOverallStatus := net_OverallStatus n\<rparr>)"
    by (simp_all add: network_ref_step_def sim_def fld_rel_def)
  then show ?thesis by blast
next
  fix pg v
  assume "ref_Type ref \<noteq> ''Network''" "ref_Type ref = ''DistributedVirtualPortgroup''"
    "pc_Retrieve_Portgroup e nets = Inr pg" "tr = [CallPcRetrieve nets]"
    "DefaultPortConfig pg = VMwareDVSPortSetting (VmwareDistributedVirtualSwitchVlanIdSpec v)"
    "s1 = s\<lparr>SwitchType := ''Distributed'', NetName := pg_Name pg,
             NetOverallStatus := pg_OverallStatus pg, VlanId := v\<rparr>"
  then have "network_ref_step e nets ref t
      = (Next (t\<lparr>SwitchType := ''Distributed'', NetName := pg_Name pg,
                 NetOverallStatus := pg_OverallStatus pg, VlanId := v\<rparr>), tr)"
    and "sim s s1 t (t\<lparr>SwitchType := ''Distributed'', NetName := pg_Name pg,
                 NetOverallStatus := pg_OverallStatus pg, VlanId := v\<rparr>)"
    by (simp_all add: network_ref_step_def sim_def fld_rel_def)
  then show ?thesis by blast
next
  assume "ref_Type ref \<noteq> ''Network''" "ref_Type ref \<noteq> ''DistributedVirtualPortgroup''"
    "tr = []" "s1 = s"
  then show ?thesis by (simp add: network_ref_step_def sim_same)
qed

lemma network_loop_sim:
  "network_loop e nets refs s = (Next s1, tr) \<Longrightarrow>
   \<exists>t1. network_loop e nets refs t = (Next t1, tr) \<and> sim s s1 t t1"
proof (induction refs arbitrary: s t tr)
  case Nil
  then show ?case by (auto simp: sim_same)
next
  case (Cons ref refs)
  from Cons.prems obtain s' tr1 tr2 where
    step: "network_ref_step e nets ref s = (Next s', tr1)" and
    rest: "network_loop e nets refs s' = (Next s1, tr2)" and
    tr: "tr = tr1 @ tr2"
    by (auto simp: then_flow_Next)
  from network_ref_step_sim [OF step] obtain t' where
    t': "network_ref_step e nets ref t = (Next t', tr1)" "sim s s' t t'"
    by blast
  from Cons.IH [OF rest] obtain t1 where
    t1: "network_loop e nets refs t' = (Next t1, tr2)" "sim s' s1 t' t1"
    by blast
  from t' t1 tr have "network_loop e nets (ref # refs) t = (Next t1, tr)"
    by (simp add: then_flow_Next)
  moreover from t'(2) t1(2) have "sim s s1 t t1"
    by (rule sim_trans)
  ultimately show ?case by blast
qed

lemma store_vm_information_sim:
  "sim s (store_vm_information vm g s) t (store_vm_information vm g t)"
  by (simp add: sim_def fld_rel_def store_vm_information_def)

lemma vm_step_sim:
  assumes "vm_step e name vm s = (Next s1, tr)"
  shows "\<exists>t1. vm_step e name vm t = (Next t1, tr) \<and> sim s s1 t t1"
proof (cases "cfg_Name (Config vm) = name")
  case True
  with assms obtain g where g: "Guest vm = Some g" and
    loop: "network_loop e (Network vm) (Network vm) (store_vm_information vm g s) = (Next s1, tr)"
    by (auto simp: vm_step_def split: option.splits)
  from network_loop_sim [OF loop] obtain t1 where
    t1: "network_loop e (Network vm) (Network vm) (store_vm_information vm g t) = (Next t1, tr)"
        "sim (store_vm_information vm g s) s1 (store_vm_information vm g t) t1"
    by blast
  from True g t1(1) have "vm_step e name vm t = (Next t1, tr)"
    by (simp add: vm_step_def)
  moreover from store_vm_information_sim t1(2) have "sim s s1 t t1"
    by (rule sim_trans)
  ultimately show ?thesis by blast
next
  case False
  with assms show ?thesis by (auto simp: vm_step_def sim_same)
qed

lemma vm_loop_sim:
  "vm_loop e name vms s = (Next s1, tr) \<Longrightarrow>
   \<exists>t1. vm_loop e name vms t = (Next t1, tr) \<and> sim s s1 t t1"
proof (induction vms arbitrary: s t tr)
  case Nil
  then show ?case by (auto simp: sim_same)
next
  case (Cons vm vms)
  from Cons.prems obtain s' tr1 tr2 where
    step: "vm_step e name vm s = (Next s', tr1)" and
    rest: "vm_loop e name vms s' = (Next s1, tr2)" and
    tr: "tr = tr1 @ tr2"
    by (auto simp: then_flow_Next)
  from vm_step_sim [OF step] obtain t' where
    t': "vm_step e name vm t = (Next t', tr1)" "sim s s' t t'"
    by blast
  from Cons.IH [OF rest] obtain t1 where
    t1: "vm_loop e name vms t' = (Next t1, tr2)" "sim s' s1 t' t1"
    by blast
  from t' t1 tr have "vm_loop e name (vm # vms) t = (Next t1, tr)"
    by (simp add: then_flow_Next)
  moreover from t'(2) t1(2) have "sim s s1 t t1"
    by (rule sim_trans)
  ultimately show ?case by blast
qed

lemma vm_loop_idem:
  assumes "vm_loop e name vms s = (Next s1, tr)"
  shows "vm_loop e name vms s1 = (Next s1, tr)"
proof -
  from vm_loop_sim [OF assms] obtain t1 where
    "vm_loop e name vms s1 = (Next t1, tr)" "sim s s1 s1 t1"
    by blast
  with sim_fix show ?thesis by blast
qed

text \<open>The loops do not read what the fetch of the resource answered.\<close>

lemma network_ref_step_env:
  "network_ref_step (e\<lparr>client_Get := x\<rparr>) = network_ref_step e"
  by (intro ext) (simp add: network_ref_step_def)

lemma network_loop_env: "network_loop (e\<lparr>client_Get := x\<rparr>) nets refs = network_loop e nets refs"
proof (induction refs)
  case Nil
  show ?case by (intro ext) simp
next
  case (Cons ref refs)
  then show ?case by (intro ext) (simp add: network_ref_step_env)
qed

lemma vm_step_env: "vm_step (e\<lparr>client_Get := x\<rparr>) = vm_step e"
  by (intro ext) (simp add: vm_step_def network_loop_env split: option.splits)

lemma vm_loop_env: "vm_loop (e\<lparr>client_Get := x\<rparr>) name vms = vm_loop e name vms"
proof (induction vms)
  case Nil
  show ?case by (intro ext) simp
next
  case (Cons vm vms)
  then show ?case by (intro ext) (simp add: vm_step_env)
qed

text \<open>
  C9: a reconciliation that succeeded has written a resource to the store; running
  \<^verbatim>\<open>Reconcile\<close> again on the resource as written, against the same inventory,
  gives the same result, makes the same calls and writes the same status again.
\<close>

theorem Reconcile_twice:
  assumes "Reconcile e = (Returned res None, tr)"
    and "CallStatusUpdate node1 \<in> set tr"
  shows "Reconcile (e\<lparr>client_Get := Inr node1\<rparr>) = (Returned res None, tr)"
proof (cases "client_Get e")
  case (Inl err)
  with assms show ?thesis by (auto simp: Reconcile_def)
next
  case get: (Inr node)
  show ?thesis
  proof (cases "CreateContainerView e")
    case (Inl err)
    with get assms show ?thesis by (auto simp: Reconcile_def)
  next
    case view: (Inr v)
    show ?thesis
    proof (cases "view_Retrieve e")
      case (Inl err)
      with get view assms show ?thesis by (auto simp: Reconcile_def with_view_def)
    next
      case (Inr vms)
      from Reconcile_success [OF get view Inr assms(1)] obtain st tr1 where
        loop: "vm_loop e (Nodename node) vms (Status node) = (Next st, tr1)" and
        upd: "status_Update e (node\<lparr>Status := st\<rparr>) = None" and
        res: "res = \<lparr>Requeue = False, RequeueAfter = 60000000000\<rparr>" and
        tr: "tr = [CallGet, CallCreateContainerView, CallViewRetrieve] @ tr1 @
                  [CallStatusUpdate (node\<lparr>Status := st\<rparr>), CallViewDestroy]"
        by blast
      have "CallStatusUpdate node1 \<notin> set tr1"
        using vm_loop_trace [of e "Nodename node" vms "Status node"] loop by auto
      with assms(2) tr have node1: "node1 = node\<lparr>Status := st\<rparr>" by simp
      from vm_loop_idem [OF loop] have
        "vm_loop (e\<lparr>client_Get := Inr node1\<rparr>) (Nodename node1) vms (Status node1) = (Next st, tr1)"
        by (simp add: node1 vm_loop_env)
      with view Inr upd res tr node1 show ?thesis
        by (simp add: Reconcile_def with_view_def Minute_def)
    qed
  qed
qed

theorem Reconcile_twice_witness:
  "Reconcile (env_of node_a [vm_a [dvs_ref]] (VmwareDistributedVirtualSwitchVlanIdSpec 1025) None)
     = (Returned \<lparr>Requeue = False, RequeueAfter = 60000000000\<rparr> None,
        [CallGet, CallCreateContainerView, CallViewRetrieve, CallPcRetrieve [dvs_ref],
         CallStatusUpdate node_prev, CallViewDestroy]) \<and>
   CallStatusUpdate node_prev
     \<in> set [CallGet, CallCreateContainerView, CallViewRetrieve, CallPcRetrieve [dvs_ref],
            CallStatusUpdate node_prev, CallViewDestroy] \<and>
   Reconcile (env_of node_a [vm_a [dvs_ref]] (VmwareDistributedVirtualSwitchVlanIdSpec 1025) None
                \<lparr>client_Get := Inr node_prev\<rparr>)
     = (Returned \<lparr>Requeue = False, RequeueAfter = 60000000000\<rparr> None,
        [CallGet, CallCreateContainerView, CallViewRetrieve, CallPcRetrieve [dvs_ref],
         CallStatusUpdate node_prev, CallViewDestroy])"
proof -
  let ?e = "env_of node_a [vm_a [dvs_ref]] (VmwareDistributedVirtualSwitchVlanIdSpec 1025) None"
  let ?tr = "[CallGet, CallCreateContainerView, CallViewRetrieve, CallPcRetrieve [dvs_ref],
              CallStatusUpdate node_prev, CallViewDestroy]"
  have run: "Reconcile ?e = (Returned \<lparr>Requeue = False, RequeueAfter = 60000000000\<rparr> None, ?tr)"
    by (simp add: run_defs input_defs node_prev_def)
  have written: "CallStatusUpdate node_prev \<in> set ?tr"
    by simp
  from Reconcile_twice [OF run written] run written show ?thesis
    by blast
qed

end
